theory Spec2Isabelle
  imports Complex_Main
begin

section \<open>Python values used by app.py\<close>

text \<open>
  A Python \<open>str\<close> is a sequence of Unicode code points, so it is modelled as a list of
  natural numbers. \<open>lit\<close> turns an ASCII literal of the source into that form.
  Timestamps (\<open>time.time()\<close>) are modelled as real numbers; the rounding of binary
  floating point is outside the model.
\<close>

type_synonym pystr = "nat list"

definition lit :: "string \<Rightarrow> pystr" where
  "lit s = map of_char s"

text \<open>The exceptions the modelled code can raise.\<close>

datatype py_error = IndexError | TypeError | AttributeError

section \<open>Configuration\<close>

definition RATE_LIMIT_WINDOW :: real where
  "RATE_LIMIT_WINDOW = 60 * 60"

definition RATE_LIMIT_MAX :: nat where
  "RATE_LIMIT_MAX = 120"

section \<open>The rate limiter\<close>

text \<open>
  \<open>request_log = defaultdict(lambda: deque())\<close>: a dictionary from client address to a
  deque of timestamps, oldest first. Reading a key that is absent creates it with an
  empty deque.
\<close>

type_synonym request_log = "pystr \<rightharpoonup> real list"

definition window :: "request_log \<Rightarrow> pystr \<Rightarrow> real list" where
  "window rlog ip = (case rlog ip of None \<Rightarrow> [] | Some q \<Rightarrow> q)"

text \<open>The loop \<open>while q and q[0] <= now - RATE_LIMIT_WINDOW: q.popleft()\<close>.\<close>

fun prune :: "real \<Rightarrow> real list \<Rightarrow> real list" where
  "prune now [] = []"
| "prune now (t # q) = (if t \<le> now - RATE_LIMIT_WINDOW then prune now q else t # q)"

text \<open>
  The result \<open>(True, None)\<close> is \<open>Admit\<close> and \<open>(False, r)\<close> is \<open>Deny r\<close>.
\<close>

datatype decision = Admit | Deny real

text \<open>
  \<open>check_rate_limit(ip)\<close>, with the clock reading \<open>now\<close> and the store passed in and the
  mutated store returned. \<open>q[0]\<close> on an empty deque raises \<open>IndexError\<close>; the deque has
  been pruned in place by then.
\<close>

definition check_rate_limit ::
  "pystr \<Rightarrow> real \<Rightarrow> request_log \<Rightarrow> (py_error + decision) \<times> request_log" where
  "check_rate_limit ip now rlog =
     (let q = prune now (window rlog ip) in
      if RATE_LIMIT_MAX \<le> length q then
        (case q of
           [] \<Rightarrow> (Inl IndexError, rlog(ip \<mapsto> q))
         | t # _ \<Rightarrow> (Inr (Deny (RATE_LIMIT_WINDOW - (now - t))), rlog(ip \<mapsto> q)))
      else (Inr Admit, rlog(ip \<mapsto> q @ [now])))"

text \<open>
  The operation \<open>check(client_id, now)\<close> as the specification words it: prune from
  the front every timestamp \<open>t\<close> with \<open>t <= now - RATE_LIMIT_WINDOW\<close>; if the pruned
  length is \<open>>= RATE_LIMIT_MAX\<close> deny with
  \<open>RATE_LIMIT_WINDOW - (now - oldest remaining)\<close> and record nothing; otherwise append
  \<open>now\<close> and admit.
\<close>

definition check_spec ::
  "pystr \<Rightarrow> real \<Rightarrow> request_log \<Rightarrow> (py_error + decision) \<times> request_log" where
  "check_spec ip now rlog =
     (let pruned = dropWhile (\<lambda>t. t \<le> now - RATE_LIMIT_WINDOW) (window rlog ip) in
      if length pruned \<ge> RATE_LIMIT_MAX then
        (Inr (Deny (RATE_LIMIT_WINDOW - (now - hd pruned))), rlog(ip \<mapsto> pruned))
      else (Inr Admit, rlog(ip \<mapsto> pruned @ [now])))"

text \<open>
  A sequence of calls \<open>check_rate_limit(ip)\<close> with their clock readings, run in order on
  the shared store: the store afterwards, the results returned to one client, and the
  timestamps of that client's admitted requests.
\<close>

type_synonym call = "pystr \<times> real"

fun run :: "call list \<Rightarrow> request_log \<Rightarrow> request_log" where
  "run [] rlog = rlog"
| "run ((ip, now) # cs) rlog = run cs (snd (check_rate_limit ip now rlog))"

fun decisions :: "pystr \<Rightarrow> call list \<Rightarrow> request_log \<Rightarrow> (py_error + decision) list" where
  "decisions b [] rlog = []"
| "decisions b ((ip, now) # cs) rlog =
     (if ip = b then [fst (check_rate_limit ip now rlog)] else []) @
     decisions b cs (snd (check_rate_limit ip now rlog))"

fun admitted :: "pystr \<Rightarrow> call list \<Rightarrow> request_log \<Rightarrow> real list" where
  "admitted b [] rlog = []"
| "admitted b ((ip, now) # cs) rlog =
     (if ip = b \<and> fst (check_rate_limit ip now rlog) = Inr Admit then [now] else []) @
     admitted b cs (snd (check_rate_limit ip now rlog))"

text \<open>The clock readings of one client's calls, and "non-decreasing per client".\<close>

definition times_of :: "pystr \<Rightarrow> call list \<Rightarrow> real list" where
  "times_of c cs = map snd (filter (\<lambda>x. fst x = c) cs)"

definition nondecreasing_per_client :: "call list \<Rightarrow> bool" where
  "nondecreasing_per_client cs = (\<forall>c \<in> set (map fst cs). sorted (times_of c cs))"

text \<open>
  The predicate on a client's window right after a call at \<open>now\<close>: every timestamp is
  younger than the window, the order is oldest first, and the quota is not exceeded.
\<close>

definition window_ok :: "real \<Rightarrow> real list \<Rightarrow> bool" where
  "window_ok now q =
     ((\<forall>t \<in> set q. now - RATE_LIMIT_WINDOW < t) \<and> sorted q \<and> length q \<le> RATE_LIMIT_MAX)"

section \<open>Strings and JSON values\<close>

text \<open>
  \<open>str.strip()\<close> removes the leading and trailing whitespace of a string; whitespace is
  what \<open>str.isspace\<close> accepts, listed here by code point.
\<close>

definition isspace :: "nat \<Rightarrow> bool" where
  "isspace c =
     ((9 \<le> c \<and> c \<le> 13) \<or> (28 \<le> c \<and> c \<le> 32) \<or> c = 133 \<or> c = 160 \<or> c = 5760 \<or>
      (8192 \<le> c \<and> c \<le> 8202) \<or> c = 8232 \<or> c = 8233 \<or> c = 8239 \<or> c = 8287 \<or>
      c = 12288)"

definition strip :: "pystr \<Rightarrow> pystr" where
  "strip s = rev (dropWhile isspace (rev (dropWhile isspace s)))"

text \<open>\<open>sub in s\<close> on strings: \<open>sub\<close> occurs in \<open>s\<close> as a contiguous run.\<close>

fun is_substring :: "pystr \<Rightarrow> pystr \<Rightarrow> bool" where
  "is_substring sub [] = (sub = [])"
| "is_substring sub (c # s) =
     (if take (length sub) (c # s) = sub then True else is_substring sub s)"

text \<open>
  What \<open>request.get_json(silent=True)\<close> can return, and what \<open>jsonify\<close> takes: \<open>JNull\<close>
  is Python's \<open>None\<close> (no body, a body that is not JSON, or the JSON text \<open>null\<close>). A
  dictionary is an association list read by its first matching key.
\<close>

datatype json =
    JNull
  | JBool bool
  | JInt int
  | JFloat real
  | JStr pystr
  | JList "json list"
  | JDict "(pystr \<times> json) list"

text \<open>Python's truth value, as \<open>not data\<close> and \<open>x or y\<close> test it.\<close>

fun truthy :: "json \<Rightarrow> bool" where
  "truthy JNull = False"
| "truthy (JBool b) = b"
| "truthy (JInt i) = (i \<noteq> 0)"
| "truthy (JFloat x) = (x \<noteq> 0)"
| "truthy (JStr s) = (s \<noteq> [])"
| "truthy (JList xs) = (xs \<noteq> [])"
| "truthy (JDict kvs) = (kvs \<noteq> [])"

text \<open>
  \<open>key in data\<close>: key membership on a dictionary, element membership on a list, substring
  on a string, and \<open>TypeError\<close> on a value that is not a container.
\<close>

fun py_in :: "pystr \<Rightarrow> json \<Rightarrow> py_error + bool" where
  "py_in key (JDict kvs) = Inr (key \<in> set (map fst kvs))"
| "py_in key (JList xs) = Inr (JStr key \<in> set xs)"
| "py_in key (JStr s) = Inr (is_substring key s)"
| "py_in key JNull = Inl TypeError"
| "py_in key (JBool b) = Inl TypeError"
| "py_in key (JInt i) = Inl TypeError"
| "py_in key (JFloat x) = Inl TypeError"

text \<open>\<open>data.get(key, default)\<close>: only a dictionary has the method.\<close>

fun py_get :: "json \<Rightarrow> pystr \<Rightarrow> json \<Rightarrow> py_error + json" where
  "py_get (JDict kvs) key dflt = Inr (case map_of kvs key of None \<Rightarrow> dflt | Some v \<Rightarrow> v)"
| "py_get JNull key dflt = Inl AttributeError"
| "py_get (JBool b) key dflt = Inl AttributeError"
| "py_get (JInt i) key dflt = Inl AttributeError"
| "py_get (JFloat x) key dflt = Inl AttributeError"
| "py_get (JStr s) key dflt = Inl AttributeError"
| "py_get (JList xs) key dflt = Inl AttributeError"

text \<open>\<open>int(x)\<close> on a float truncates towards zero.\<close>

definition py_int :: "real \<Rightarrow> int" where
  "py_int x = (if 0 \<le> x then \<lfloor>x\<rfloor> else \<lceil>x\<rceil>)"

section \<open>The chat relay handler\<close>

text \<open>
  The parts of the Flask request that \<open>chat\<close> reads: the \<open>X-Forwarded-For\<close> header when
  present, \<open>remote_addr\<close>, and the result of \<open>get_json(silent=True)\<close>.
\<close>

record http_request =
  forwarded_for :: "pystr option"
  remote_addr :: "pystr option"
  get_json :: json

text \<open>\<open>ip_from_request\<close>; \<open>split(",")[0]\<close> is the text before the first comma (code point 44).\<close>

definition ip_from_request :: "http_request \<Rightarrow> pystr" where
  "ip_from_request req =
     (case forwarded_for req of
        Some v \<Rightarrow> strip (takeWhile (\<lambda>c. c \<noteq> 44) v)
      | None \<Rightarrow>
          (case remote_addr req of
             None \<Rightarrow> lit ''unknown''
           | Some a \<Rightarrow> if a = [] then lit ''unknown'' else a))"

text \<open>\<open>build_system_prompt\<close>; code point 8212 is the dash of the source text.\<close>

definition build_system_prompt :: pystr where
  "build_system_prompt =
     lit ''Tum '' @ [39] @ lit ''Selection Mitra'' @ [39] @ lit '' ho '' @ [8212] @
     lit '' ek friendly aur motivating study helper. '' @
     lit ''Tum Hindi/English/Hinglish dono me baat kar sakte ho. '' @
     lit ''Har jawab ko exam-oriented, clear aur short steps me do. '' @
     lit ''Agar user summary maange (e.g., '' @ [39] @ lit ''5 line summary'' @ [39] @
     lit ''), to concise do. '' @
     lit ''Agar user puchhe ki books, plan ya tricks, to practical aur ranked suggestions do. '' @
     lit ''Hamesha polite raho aur exam-focused examples do.''"

text \<open>
  \<open>sanitize_text(s)\<close> is \<open>s.strip()\<close>; the argument is whatever the body holds under
  \<open>message\<close>, and only a string has the method.
\<close>

fun sanitize_text :: "json \<Rightarrow> py_error + pystr" where
  "sanitize_text (JStr s) = Inr (strip s)"
| "sanitize_text JNull = Inl AttributeError"
| "sanitize_text (JBool b) = Inl AttributeError"
| "sanitize_text (JInt i) = Inl AttributeError"
| "sanitize_text (JFloat x) = Inl AttributeError"
| "sanitize_text (JList xs) = Inl AttributeError"
| "sanitize_text (JDict kvs) = Inl AttributeError"

text \<open>
  The external completion capability. A call \<open>client.chat.completions.create(...)\<close>
  carries the model name, the messages and the two generation parameters; it either
  raises an exception \<open>e\<close>, given by \<open>str(e)\<close>, or returns a completion object. Of that
  object the handler reads \<open>choices\<close>, of a choice \<open>message\<close> and \<open>text\<close>, of a message
  \<open>content\<close>; an attribute that is missing is \<open>None\<close> here.
\<close>

record completion_request =
  model :: pystr
  messages :: "json list"
  temperature :: real
  max_tokens :: nat

record message_obj =
  content :: "json option"

record choice_obj =
  message :: "message_obj option"
  text_attr :: "json option"

record completion =
  choices :: "choice_obj list"

type_synonym completion_client = "completion_request \<Rightarrow> pystr + completion"

text \<open>The expression \<open>resp.choices[0].message.content\<close> of the inner \<open>try\<close>.\<close>

definition message_content :: "completion \<Rightarrow> py_error + json" where
  "message_content resp =
     (case choices resp of
        [] \<Rightarrow> Inl IndexError
      | c # _ \<Rightarrow>
          (case message c of
             None \<Rightarrow> Inl AttributeError
           | Some m \<Rightarrow> (case content m of None \<Rightarrow> Inl AttributeError | Some v \<Rightarrow> Inr v)))"

definition fallback_reply :: pystr where
  "fallback_reply = lit ''Maaf '' @ [8212] @ lit '' response parsing error.''"

text \<open>
  The inner \<open>try ... except Exception\<close>: the value of \<open>reply_text\<close>, or the text of the
  exception that leaves it. The handler of the inner \<open>try\<close> evaluates
  \<open>resp.choices[0]\<close> again, which raises \<open>IndexError\<close> (list index out of range) on an
  empty list.
\<close>

definition extract_reply :: "completion \<Rightarrow> pystr + json" where
  "extract_reply resp =
     (case message_content resp of
        Inr v \<Rightarrow> Inr v
      | Inl _ \<Rightarrow>
          (case choices resp of
             [] \<Rightarrow> Inl (lit ''list index out of range'')
           | c # _ \<Rightarrow>
               (let t = (case text_attr c of None \<Rightarrow> JStr [] | Some v \<Rightarrow> v)
                in Inr (if truthy t then t else JStr fallback_reply))))"

text \<open>
  What one request does: the response (\<open>jsonify(body), status\<close>, or an exception that
  leaves the view, which Flask answers with its own 500 page), the store afterwards,
  the calls made to the completion capability in order, and the lines printed.
\<close>

datatype outcome = Response nat json | Unhandled py_error

record chat_result =
  response :: outcome
  store :: request_log
  calls :: "completion_request list"
  printed :: "pystr list"

definition invalid_request :: "string \<Rightarrow> outcome" where
  "invalid_request msg =
     Response 400 (JDict [(lit ''error'', JStr (lit ''invalid_request'')),
                          (lit ''message'', JStr (lit msg))])"

text \<open>
  The arguments of \<open>client.chat.completions.create\<close>: the configured model, the system
  prompt followed by the user's message, \<open>temperature=0.2\<close> and \<open>max_tokens=800\<close>.
\<close>

definition completion_call :: "pystr \<Rightarrow> pystr \<Rightarrow> completion_request" where
  "completion_call MODEL user_message =
     \<lparr>model = MODEL,
      messages =
        [JDict [(lit ''role'', JStr (lit ''system'')), (lit ''content'', JStr build_system_prompt)],
         JDict [(lit ''role'', JStr (lit ''user'')), (lit ''content'', JStr user_message)]],
      temperature = 0.2,
      max_tokens = 800\<rparr>"

text \<open>
  The handler \<open>except Exception as e\<close> of the outer \<open>try\<close>: it prints the error and
  answers 500.
\<close>

definition openai_error ::
  "completion_request \<Rightarrow> pystr \<Rightarrow> outcome \<times> completion_request list \<times> pystr list" where
  "openai_error creq e =
     (Response 500 (JDict [(lit ''error'', JStr (lit ''openai_error'')),
                           (lit ''message'', JStr e)]),
      [creq], [lit ''OpenAI error: '' @ e])"

text \<open>The outer \<open>try\<close>: the completion call, the extraction of the reply, the answer.\<close>

definition relay ::
  "completion_client \<Rightarrow> pystr \<Rightarrow> pystr \<Rightarrow> outcome \<times> completion_request list \<times> pystr list" where
  "relay client MODEL user_message =
     (let creq = completion_call MODEL user_message
      in case client creq of
           Inl e \<Rightarrow> openai_error creq e
         | Inr resp \<Rightarrow>
             (case extract_reply resp of
                Inl e \<Rightarrow> openai_error creq e
              | Inr reply_text \<Rightarrow>
                  (Response 200 (JDict [(lit ''reply'', reply_text)]), [creq], [])))"

text \<open>The body of \<open>chat\<close> after the rate-limit check has admitted the request.\<close>

definition chat_admitted ::
  "completion_client \<Rightarrow> pystr \<Rightarrow> json \<Rightarrow> outcome \<times> completion_request list \<times> pystr list" where
  "chat_admitted client MODEL data =
     (if truthy data then
        (case py_in (lit ''message'') data of
           Inl e \<Rightarrow> (Unhandled e, [], [])
         | Inr False \<Rightarrow>
             (invalid_request ''Provide JSON body with 'message' field.'', [], [])
         | Inr True \<Rightarrow>
             (case py_get data (lit ''message'') (JStr []) of
                Inl e \<Rightarrow> (Unhandled e, [], [])
              | Inr v \<Rightarrow>
                  (case sanitize_text v of
                     Inl e \<Rightarrow> (Unhandled e, [], [])
                   | Inr user_message \<Rightarrow>
                       if user_message = [] then (invalid_request ''Empty message.'', [], [])
                       else relay client MODEL user_message)))
      else (invalid_request ''Provide JSON body with 'message' field.'', [], []))"

text \<open>
  The view \<open>chat\<close>, given the completion capability, the configured model name, the
  clock reading, the request and the store.
\<close>

definition chat ::
  "completion_client \<Rightarrow> pystr \<Rightarrow> real \<Rightarrow> http_request \<Rightarrow> request_log \<Rightarrow> chat_result" where
  "chat client MODEL now req rlog =
     (let ip = ip_from_request req;
          checked = check_rate_limit ip now rlog
      in case fst checked of
           Inl e \<Rightarrow>
             \<lparr>response = Unhandled e, store = snd checked, calls = [], printed = []\<rparr>
         | Inr (Deny retry_after) \<Rightarrow>
             \<lparr>response =
                Response 429 (JDict [(lit ''error'', JStr (lit ''rate_limited'')),
                                     (lit ''retry_after_seconds'', JInt (py_int retry_after))]),
              store = snd checked, calls = [], printed = []\<rparr>
         | Inr Admit \<Rightarrow>
             (let r = chat_admitted client MODEL (get_json req)
              in \<lparr>response = fst r, store = snd checked,
                  calls = fst (snd r), printed = snd (snd r)\<rparr>))"

section \<open>Properties of the rate limiter\<close>

lemma prune_dropWhile: "prune now q = dropWhile (\<lambda>t. t \<le> now - RATE_LIMIT_WINDOW) q"
  by (induction q) simp_all

text \<open>
  C1. For every client and every call, the limiter prunes the expired prefix of the
  client's window, then denies with the stated retry-after and appends nothing when the
  pruned window holds at least \<open>RATE_LIMIT_MAX\<close> entries, and otherwise appends \<open>now\<close>
  and admits: the code computes exactly what the specification's four steps describe.
\<close>

theorem check_rate_limit_refines_spec:
  "check_rate_limit ip now rlog = check_spec ip now rlog"
proof -
  define q where "q = prune now (window rlog ip)"
  have spec: "dropWhile (\<lambda>t. t \<le> now - RATE_LIMIT_WINDOW) (window rlog ip) = q"
    by (simp add: q_def prune_dropWhile)
  have code: "check_rate_limit ip now rlog =
      (if RATE_LIMIT_MAX \<le> length q then
         (case q of
            [] \<Rightarrow> (Inl IndexError, rlog(ip \<mapsto> q))
          | t # _ \<Rightarrow> (Inr (Deny (RATE_LIMIT_WINDOW - (now - t))), rlog(ip \<mapsto> q)))
       else (Inr Admit, rlog(ip \<mapsto> q @ [now])))"
    unfolding check_rate_limit_def Let_def q_def [symmetric] by (rule refl)
  have "check_spec ip now rlog =
      (if RATE_LIMIT_MAX \<le> length q then
         (Inr (Deny (RATE_LIMIT_WINDOW - (now - hd q))), rlog(ip \<mapsto> q))
       else (Inr Admit, rlog(ip \<mapsto> q @ [now])))"
    unfolding check_spec_def Let_def spec by (rule refl)
  with code show ?thesis
    by (cases q) (simp_all add: RATE_LIMIT_MAX_def)
qed

subsection \<open>Facts about one call\<close>

lemma RATE_LIMIT_WINDOW_pos: "0 < RATE_LIMIT_WINDOW"
  by (simp add: RATE_LIMIT_WINDOW_def)

lemma set_prune: "set (prune now q) \<subseteq> set q"
  by (induction q) auto

lemma length_prune: "length (prune now q) \<le> length q"
  by (induction q) auto

lemma sorted_prune: "sorted q \<Longrightarrow> sorted (prune now q)"
  by (induction q) auto

lemma prune_fresh: "sorted q \<Longrightarrow> t \<in> set (prune now q) \<Longrightarrow> now - RATE_LIMIT_WINDOW < t"
  by (induction q) (auto split: if_splits)

lemma prune_head: "prune now q = t # r \<Longrightarrow> now - RATE_LIMIT_WINDOW < t \<and> t \<in> set q"
  by (induction q) (auto split: if_splits)

lemma window_check:
  "window (snd (check_rate_limit ip now rlog)) c =
     (if c = ip then
        (if RATE_LIMIT_MAX \<le> length (prune now (window rlog ip)) then prune now (window rlog ip)
         else prune now (window rlog ip) @ [now])
      else window rlog c)"
  by (simp add: check_rate_limit_def window_def Let_def split: list.split)

lemma fst_check:
  "fst (check_rate_limit ip now rlog) =
     (if RATE_LIMIT_MAX \<le> length (prune now (window rlog ip)) then
        (case prune now (window rlog ip) of
           [] \<Rightarrow> Inl IndexError
         | t # _ \<Rightarrow> Inr (Deny (RATE_LIMIT_WINDOW - (now - t))))
      else Inr Admit)"
  by (simp add: check_rate_limit_def Let_def split: list.split)

lemma snd_check:
  "snd (check_rate_limit ip now rlog) c =
     (if c = ip then
        Some (if RATE_LIMIT_MAX \<le> length (prune now (window rlog ip))
              then prune now (window rlog ip) else prune now (window rlog ip) @ [now])
      else rlog c)"
  by (simp add: check_rate_limit_def Let_def split: list.split)

lemma check_frame: "a \<noteq> b \<Longrightarrow> snd (check_rate_limit a now rlog) b = rlog b"
  by (simp add: snd_check)

lemma check_local:
  assumes "r1 b = r2 b"
  shows "snd (check_rate_limit ip now r1) b = snd (check_rate_limit ip now r2) b"
    and "fst (check_rate_limit b now r1) = fst (check_rate_limit b now r2)"
proof -
  have w: "window r1 b = window r2 b" using assms by (simp add: window_def)
  show "snd (check_rate_limit ip now r1) b = snd (check_rate_limit ip now r2) b"
    using assms w by (cases "b = ip") (simp_all add: snd_check)
  show "fst (check_rate_limit b now r1) = fst (check_rate_limit b now r2)"
    using w by (simp add: fst_check)
qed

lemma run_append: "run (cs @ ds) rlog = run ds (run cs rlog)"
  by (induction cs arbitrary: rlog) auto

lemma step_inv:
  assumes "sorted (window rlog ip)" and "\<forall>t \<in> set (window rlog ip). t \<le> now"
    and "length (window rlog ip) \<le> RATE_LIMIT_MAX"
  shows "window_ok now (window (snd (check_rate_limit ip now rlog)) ip)"
    and "set (window (snd (check_rate_limit ip now rlog)) ip) \<subseteq> insert now (set (window rlog ip))"
proof -
  let ?q = "prune now (window rlog ip)"
  have s: "sorted ?q" using assms(1) by (rule sorted_prune)
  have f: "\<forall>t \<in> set ?q. now - RATE_LIMIT_WINDOW < t"
    using assms(1) prune_fresh by blast
  have le: "\<forall>t \<in> set ?q. t \<le> now" using assms(2) set_prune by blast
  have len: "length ?q \<le> RATE_LIMIT_MAX"
    using assms(3) length_prune [of now "window rlog ip"] by linarith
  show "window_ok now (window (snd (check_rate_limit ip now rlog)) ip)"
    using s f le len RATE_LIMIT_WINDOW_pos
    by (auto simp: window_check window_ok_def sorted_append)
  show "set (window (snd (check_rate_limit ip now rlog)) ip) \<subseteq> insert now (set (window rlog ip))"
    using set_prune [of now "window rlog ip"] by (auto simp: window_check)
qed

lemma times_of_snoc:
  "times_of c (cs @ [(ip, now)]) = times_of c cs @ (if ip = c then [now] else [])"
  by (simp add: times_of_def)

lemma nondecreasing_snoc:
  assumes "nondecreasing_per_client (cs @ [(ip, now)])"
  shows "nondecreasing_per_client cs" and "\<forall>t \<in> set (times_of ip cs). t \<le> now"
proof -
  show "nondecreasing_per_client cs"
    unfolding nondecreasing_per_client_def
  proof
    fix c assume "c \<in> set (map fst cs)"
    then have "sorted (times_of c (cs @ [(ip, now)]))"
      using assms by (auto simp: nondecreasing_per_client_def)
    then show "sorted (times_of c cs)"
      by (simp add: times_of_snoc sorted_append split: if_splits)
  qed
  have "sorted (times_of ip (cs @ [(ip, now)]))"
    using assms by (simp add: nondecreasing_per_client_def)
  then show "\<forall>t \<in> set (times_of ip cs). t \<le> now"
    by (simp add: times_of_snoc sorted_append)
qed

lemma reachable_windows:
  "nondecreasing_per_client cs \<Longrightarrow>
     sorted (window (run cs Map.empty) c) \<and>
     length (window (run cs Map.empty) c) \<le> RATE_LIMIT_MAX \<and>
     set (window (run cs Map.empty) c) \<subseteq> set (times_of c cs)"
proof (induction cs arbitrary: c rule: rev_induct)
  case Nil
  then show ?case by (simp add: window_def)
next
  case (snoc x cs)
  obtain ip now where x: "x = (ip, now)" by (cases x)
  from snoc.prems have nd: "nondecreasing_per_client cs"
    and le: "\<forall>t \<in> set (times_of ip cs). t \<le> now"
    unfolding x by (rule nondecreasing_snoc)+
  note IH = snoc.IH [OF nd]
  show ?case
  proof (cases "c = ip")
    case False
    then show ?thesis using IH [of c]
      by (simp add: x run_append window_check times_of_snoc)
  next
    case True
    have pre: "sorted (window (run cs Map.empty) ip)"
      "\<forall>t \<in> set (window (run cs Map.empty) ip). t \<le> now"
      "length (window (run cs Map.empty) ip) \<le> RATE_LIMIT_MAX"
      using IH [of ip] le by auto
    from step_inv [OF pre] IH [of ip] show ?thesis
      unfolding True x by (auto simp: run_append window_ok_def times_of_snoc)
  qed
qed


subsection \<open>Distinct clients\<close>

lemma isolation:
  assumes "a \<noteq> b" and "r1 b = r2 b"
  shows "decisions b cs r1 = decisions b (filter (\<lambda>c. fst c \<noteq> a) cs) r2 \<and>
         run cs r1 b = run (filter (\<lambda>c. fst c \<noteq> a) cs) r2 b"
  using assms(2)
proof (induction cs arbitrary: r1 r2)
  case Nil
  then show ?case by simp
next
  case (Cons x cs)
  obtain ip now where x: "x = (ip, now)" by (cases x)
  show ?case
  proof (cases "ip = a")
    case True
    have "snd (check_rate_limit a now r1) b = r2 b"
      using assms(1) Cons.prems by (simp add: check_frame)
    from Cons.IH [of "snd (check_rate_limit a now r1)" r2, OF this] show ?thesis
      using assms(1) by (simp add: x True)
  next
    case False
    have eq: "snd (check_rate_limit ip now r1) b = snd (check_rate_limit ip now r2) b"
      using Cons.prems by (rule check_local(1))
    have "ip = b \<Longrightarrow> fst (check_rate_limit ip now r1) = fst (check_rate_limit ip now r2)"
      using Cons.prems check_local(2) by blast
    with Cons.IH [of "snd (check_rate_limit ip now r1)" "snd (check_rate_limit ip now r2)", OF eq]
    show ?thesis
      using False by (simp add: x)
  qed
qed

text \<open>
  C5. For distinct clients \<open>a\<close> and \<open>b\<close>, a call for \<open>a\<close> leaves the store's entry of \<open>b\<close>
  as it was; and in every sequence of calls, the results returned to \<open>b\<close> and the final
  entry of \<open>b\<close> are those of the same sequence with all of \<open>a\<close>'s calls removed. So
  whatever \<open>a\<close> does, exhausting its quota included, causes no denial for \<open>b\<close>.
\<close>

theorem clients_do_not_interfere:
  assumes "a \<noteq> b"
  shows "snd (check_rate_limit a now rlog) b = rlog b \<and>
         decisions b cs rlog = decisions b (filter (\<lambda>c. fst c \<noteq> a) cs) rlog \<and>
         run cs rlog b = run (filter (\<lambda>c. fst c \<noteq> a) cs) rlog b"
  using assms isolation [of a b rlog rlog cs] by (simp add: check_frame)

theorem clients_do_not_interfere_witness:
  "lit ''a'' \<noteq> lit ''b'' \<and>
   snd (check_rate_limit (lit ''a'') 7 Map.empty) (lit ''b'') = None \<and>
   decisions (lit ''b'') (replicate 121 (lit ''a'', 0) @ [(lit ''b'', 1)]) Map.empty =
     [Inr Admit] \<and>
   run (replicate 121 (lit ''a'', 0) @ [(lit ''b'', 1)]) Map.empty (lit ''b'') = Some [1]"
proof -
  have ne: "lit ''a'' \<noteq> lit ''b''"
    by (simp add: lit_def)
  have keep: "filter (\<lambda>c. fst c \<noteq> lit ''a'') (replicate 121 (lit ''a'', 0::real) @ [(lit ''b'', 1)]) =
      [(lit ''b'', 1)]"
    using ne by simp
  have alone: "decisions (lit ''b'') [(lit ''b'', 1)] Map.empty = [Inr Admit]"
    "run [(lit ''b'', 1)] Map.empty (lit ''b'') = Some [1]"
    by (simp_all add: check_rate_limit_def window_def RATE_LIMIT_MAX_def Let_def)
  from clients_do_not_interfere [OF ne, of 7 Map.empty
      "replicate 121 (lit ''a'', 0) @ [(lit ''b'', 1)]"]
  show ?thesis
    unfolding keep alone using ne by simp
qed

subsection \<open>The window along a run\<close>

text \<open>
  C3. Along every sequence of calls from the empty store in which each client's clock
  readings are non-decreasing, right after a call \<open>check(ip, now)\<close> the window of \<open>ip\<close>
  holds only timestamps greater than \<open>now - RATE_LIMIT_WINDOW\<close>, is in non-decreasing
  order, and has at most \<open>RATE_LIMIT_MAX\<close> entries.
\<close>

theorem window_invariant:
  assumes "nondecreasing_per_client (cs @ [(ip, now)])"
  shows "window_ok now (window (run (cs @ [(ip, now)]) Map.empty) ip)"
proof -
  from assms have nd: "nondecreasing_per_client cs"
    and le: "\<forall>t \<in> set (times_of ip cs). t \<le> now"
    by (rule nondecreasing_snoc)+
  have pre: "sorted (window (run cs Map.empty) ip)"
    "\<forall>t \<in> set (window (run cs Map.empty) ip). t \<le> now"
    "length (window (run cs Map.empty) ip) \<le> RATE_LIMIT_MAX"
    using reachable_windows [OF nd, of ip] le by auto
  from step_inv(1) [OF pre] show ?thesis
    by (simp add: run_append)
qed

theorem window_invariant_witness:
  "nondecreasing_per_client ([(lit ''a'', 0), (lit ''b'', 5), (lit ''a'', 10)] @ [(lit ''a'', 3605)]) \<and>
   window (run ([(lit ''a'', 0), (lit ''b'', 5), (lit ''a'', 10)] @ [(lit ''a'', 3605)]) Map.empty)
     (lit ''a'') = [10, 3605] \<and>
   window_ok 3605 [10, 3605]"
proof -
  have nd: "nondecreasing_per_client
      ([(lit ''a'', 0), (lit ''b'', 5), (lit ''a'', 10)] @ [(lit ''a'', 3605)])"
    by (simp add: nondecreasing_per_client_def times_of_def lit_def)
  have w: "window (run ([(lit ''a'', 0), (lit ''b'', 5), (lit ''a'', 10)] @ [(lit ''a'', 3605)])
      Map.empty) (lit ''a'') = [10, 3605]"
    by (simp add: check_rate_limit_def window_def RATE_LIMIT_MAX_def RATE_LIMIT_WINDOW_def
        lit_def Let_def)
  from window_invariant [OF nd] nd w show ?thesis
    by simp
qed

subsection \<open>Denials\<close>

lemma deny_bounds:
  assumes "\<forall>t \<in> set (window rlog ip). t \<le> now"
    and "fst (check_rate_limit ip now rlog) = Inr (Deny r)"
  shows "0 < r \<and> r \<le> RATE_LIMIT_WINDOW"
proof (cases "prune now (window rlog ip)")
  case Nil
  with assms(2) show ?thesis by (simp add: fst_check split: if_splits)
next
  case (Cons t q)
  with assms(2) have r: "r = RATE_LIMIT_WINDOW - (now - t)"
    by (simp add: fst_check split: if_splits)
  from prune_head [OF Cons] assms(1) show ?thesis
    unfolding r by auto
qed

lemma chat_denied:
  assumes "fst (check_rate_limit (ip_from_request req) now rlog) = Inr (Deny r)"
  shows "chat client MODEL now req rlog =
     \<lparr>response =
        Response 429 (JDict [(lit ''error'', JStr (lit ''rate_limited'')),
                             (lit ''retry_after_seconds'', JInt (py_int r))]),
      store = snd (check_rate_limit (ip_from_request req) now rlog),
      calls = [], printed = []\<rparr>"
  using assms by (simp add: chat_def Let_def)

text \<open>
  C4. Along every sequence of calls from the empty store with non-decreasing clock
  readings per client, when the check made by \<open>chat\<close> denies with retry-after \<open>r\<close>, then
  \<open>0 <= r <= RATE_LIMIT_WINDOW\<close>, and the response is 429 with
  \<open>retry_after_seconds = int(r)\<close>.
\<close>

theorem retry_after_bounds:
  assumes "nondecreasing_per_client (cs @ [(ip_from_request req, now)])"
    and "fst (check_rate_limit (ip_from_request req) now (run cs Map.empty)) = Inr (Deny r)"
  shows "0 \<le> r \<and> r \<le> RATE_LIMIT_WINDOW \<and>
         response (chat client MODEL now req (run cs Map.empty)) =
           Response 429 (JDict [(lit ''error'', JStr (lit ''rate_limited'')),
                                (lit ''retry_after_seconds'', JInt (py_int r))])"
proof -
  from assms(1) have nd: "nondecreasing_per_client cs"
    and le: "\<forall>t \<in> set (times_of (ip_from_request req) cs). t \<le> now"
    by (rule nondecreasing_snoc)+
  have "\<forall>t \<in> set (window (run cs Map.empty) (ip_from_request req)). t \<le> now"
    using reachable_windows [OF nd, of "ip_from_request req"] le by auto
  from deny_bounds [OF this assms(2)] show ?thesis
    by (simp add: chat_denied [OF assms(2)])
qed

theorem retry_after_bounds_witness:
  "nondecreasing_per_client
     (replicate 120 (lit ''a'', 0) @
      [(ip_from_request \<lparr>forwarded_for = None, remote_addr = Some (lit ''a''), get_json = JNull\<rparr>,
        21 / 2)]) \<and>
   fst (check_rate_limit
          (ip_from_request \<lparr>forwarded_for = None, remote_addr = Some (lit ''a''), get_json = JNull\<rparr>)
          (21 / 2) (run (replicate 120 (lit ''a'', 0)) Map.empty)) = Inr (Deny (7179 / 2)) \<and>
   (0::real) \<le> 7179 / 2 \<and> 7179 / 2 \<le> RATE_LIMIT_WINDOW \<and>
   response (chat (\<lambda>c. Inl []) (lit ''gpt-4o-mini'') (21 / 2)
       \<lparr>forwarded_for = None, remote_addr = Some (lit ''a''), get_json = JNull\<rparr>
       (run (replicate 120 (lit ''a'', 0)) Map.empty)) =
     Response 429 (JDict [(lit ''error'', JStr (lit ''rate_limited'')),
                          (lit ''retry_after_seconds'', JInt 3589)])"
proof -
  let ?req = "\<lparr>forwarded_for = None, remote_addr = Some (lit ''a''), get_json = JNull\<rparr>"
  have ip: "ip_from_request ?req = lit ''a''"
    by (simp add: ip_from_request_def lit_def)
  have nd: "nondecreasing_per_client
      (replicate 120 (lit ''a'', 0) @ [(ip_from_request ?req, 21 / 2)])"
    unfolding ip
    by (simp add: nondecreasing_per_client_def times_of_def lit_def eval_nat_numeral)
  have deny: "fst (check_rate_limit (ip_from_request ?req) (21 / 2)
      (run (replicate 120 (lit ''a'', 0)) Map.empty)) = Inr (Deny (7179 / 2))"
    unfolding ip
    by (simp add: check_rate_limit_def window_def RATE_LIMIT_MAX_def RATE_LIMIT_WINDOW_def
        lit_def Let_def eval_nat_numeral)
  have int: "py_int (7179 / 2) = 3589"
    by (simp add: py_int_def)
  from retry_after_bounds [OF nd deny, of "\<lambda>c. Inl []" "lit ''gpt-4o-mini''"] nd deny
  show ?thesis
    unfolding int by simp
qed

lemma filter_prune:
  "now \<le> u \<Longrightarrow> filter (\<lambda>t. u - t < RATE_LIMIT_WINDOW) (prune now q) =
     filter (\<lambda>t. u - t < RATE_LIMIT_WINDOW) q"
  by (induction q) auto

lemma admitted_in_window:
  assumes "\<forall>t \<in> set (times_of ip cs). t \<le> u"
  shows "filter (\<lambda>t. u - t < RATE_LIMIT_WINDOW) (window (run cs rlog) ip) =
         filter (\<lambda>t. u - t < RATE_LIMIT_WINDOW) (window rlog ip @ admitted ip cs rlog)"
  using assms
proof (induction cs arbitrary: rlog)
  case Nil
  then show ?case by simp
next
  case (Cons x cs)
  obtain c now where x: "x = (c, now)" by (cases x)
  from Cons.prems have rest: "\<forall>t \<in> set (times_of ip cs). t \<le> u"
    by (auto simp: times_of_def)
  note IH = Cons.IH [OF rest, of "snd (check_rate_limit c now rlog)"]
  show ?case
  proof (cases "c = ip")
    case False
    with IH show ?thesis by (simp add: x window_check)
  next
    case True
    from Cons.prems have "now \<le> u" by (simp add: x True times_of_def)
    from filter_prune [OF this] IH show ?thesis
      by (simp add: x True window_check fst_check split: list.split)
  qed
qed

text \<open>
  C2. Along every sequence of calls from the empty store with non-decreasing clock
  readings per client: when at least \<open>RATE_LIMIT_MAX\<close> requests of a client have been
  admitted at times less than \<open>RATE_LIMIT_WINDOW\<close> seconds before \<open>now\<close> (so they lie in
  a span shorter than the window, and \<open>now\<close> is within the window of the oldest of them),
  the client's next check, at \<open>now\<close>, is denied.
\<close>

theorem quota_exhausted_denies:
  assumes "nondecreasing_per_client (cs @ [(ip, now)])"
    and "RATE_LIMIT_MAX \<le>
           length (filter (\<lambda>t. now - t < RATE_LIMIT_WINDOW) (admitted ip cs Map.empty))"
  shows "\<exists>r. fst (check_rate_limit ip now (run cs Map.empty)) = Inr (Deny r)"
proof -
  let ?q = "window (run cs Map.empty) ip"
  let ?P = "\<lambda>t. now - t < RATE_LIMIT_WINDOW"
  from assms(1) have le: "\<forall>t \<in> set (times_of ip cs). t \<le> now"
    by (rule nondecreasing_snoc(2))
  have "filter ?P (prune now ?q) = filter ?P ?q"
    by (rule filter_prune) simp
  also have "\<dots> = filter ?P (admitted ip cs Map.empty)"
    using admitted_in_window [OF le, of Map.empty] by (simp add: window_def)
  finally have "RATE_LIMIT_MAX \<le> length (filter ?P (prune now ?q))"
    using assms(2) by simp
  also have "\<dots> \<le> length (prune now ?q)"
    by (rule length_filter_le)
  finally have full: "RATE_LIMIT_MAX \<le> length (prune now ?q)" .
  then show ?thesis
    by (cases "prune now ?q") (simp_all add: fst_check RATE_LIMIT_MAX_def)
qed


theorem quota_exhausted_denies_witness:
  "nondecreasing_per_client
     ((replicate 60 (lit ''a'', 0) @ replicate 60 (lit ''a'', 100)) @ [(lit ''a'', 3599)]) \<and>
   RATE_LIMIT_MAX \<le>
     length (filter (\<lambda>t. 3599 - t < RATE_LIMIT_WINDOW)
       (admitted (lit ''a'') (replicate 60 (lit ''a'', 0) @ replicate 60 (lit ''a'', 100))
          Map.empty)) \<and>
   (\<exists>r. fst (check_rate_limit (lit ''a'') 3599
          (run (replicate 60 (lit ''a'', 0) @ replicate 60 (lit ''a'', 100)) Map.empty)) =
        Inr (Deny r))"
proof -
  have nd: "nondecreasing_per_client
      ((replicate 60 (lit ''a'', 0) @ replicate 60 (lit ''a'', 100)) @ [(lit ''a'', 3599)])"
    by (simp add: nondecreasing_per_client_def times_of_def lit_def eval_nat_numeral)
  have adm: "admitted (lit ''a'') (replicate 60 (lit ''a'', 0) @ replicate 60 (lit ''a'', 100))
      Map.empty = replicate 60 0 @ replicate 60 100"
    by (simp add: check_rate_limit_def window_def RATE_LIMIT_MAX_def RATE_LIMIT_WINDOW_def
        lit_def Let_def eval_nat_numeral)
  have full: "RATE_LIMIT_MAX \<le>
      length (filter (\<lambda>t. 3599 - t < RATE_LIMIT_WINDOW)
        (admitted (lit ''a'') (replicate 60 (lit ''a'', 0) @ replicate 60 (lit ''a'', 100))
           Map.empty))"
    unfolding adm by (simp add: RATE_LIMIT_MAX_def RATE_LIMIT_WINDOW_def)
  from quota_exhausted_denies [OF nd full] nd full show ?thesis
    by blast
qed

section \<open>Properties of the chat relay handler\<close>

lemma all_dropWhile: "(\<forall>x \<in> set (dropWhile P xs). P x) \<longleftrightarrow> (\<forall>x \<in> set xs. P x)"
  by (induction xs) auto

lemma strip_empty_iff: "strip s = [] \<longleftrightarrow> (\<forall>c \<in> set s. isspace c)"
  by (simp add: strip_def all_dropWhile)

lemma chat_admitted_store:
  assumes "fst (check_rate_limit (ip_from_request req) now rlog) = Inr Admit"
  shows "chat client MODEL now req rlog =
     \<lparr>response = fst (chat_admitted client MODEL (get_json req)),
      store = snd (check_rate_limit (ip_from_request req) now rlog),
      calls = fst (snd (chat_admitted client MODEL (get_json req))),
      printed = snd (snd (chat_admitted client MODEL (get_json req)))\<rparr>"
  using assms by (simp add: chat_def Let_def)

lemma chat_admitted_well_formed:
  assumes "map_of kvs (lit ''message'') = Some (JStr s)" and "strip s \<noteq> []"
  shows "chat_admitted client MODEL (JDict kvs) = relay client MODEL (strip s)"
proof -
  from assms(1) have ne: "kvs \<noteq> []" by auto
  from assms(1) have mem: "lit ''message'' \<in> fst ` set kvs"
    by (metis domI dom_map_of_conv_image_fst)
  show ?thesis using assms ne mem
    by (simp add: chat_admitted_def)
qed

lemma admit_store:
  assumes "fst (check_rate_limit ip now rlog) = Inr Admit"
  shows "snd (check_rate_limit ip now rlog) = rlog(ip \<mapsto> prune now (window rlog ip) @ [now])"
  using assms by (simp add: check_rate_limit_def Let_def split: if_splits list.splits)

text \<open>
  C10. For every request that the rate limiter admits, the store that \<open>chat\<close> leaves
  behind is the old store with the client's window pruned and \<open>now\<close> appended, whatever
  the body holds and whatever the response is: the slot is taken before the body is
  validated, and a 400 answer does not give it back.
\<close>

theorem admitted_request_consumes_slot:
  assumes "fst (check_rate_limit (ip_from_request req) now rlog) = Inr Admit"
  shows "store (chat client MODEL now req rlog) =
           rlog(ip_from_request req \<mapsto> prune now (window rlog (ip_from_request req)) @ [now])"
  by (simp add: chat_admitted_store [OF assms] admit_store [OF assms])

theorem admitted_request_consumes_slot_witness:
  "fst (check_rate_limit
          (ip_from_request \<lparr>forwarded_for = None, remote_addr = Some (lit ''a''), get_json = JNull\<rparr>)
          3603 [lit ''a'' \<mapsto> [0, 5]]) = Inr Admit \<and>
   response (chat (\<lambda>c. Inl []) (lit ''gpt-4o-mini'') 3603
       \<lparr>forwarded_for = None, remote_addr = Some (lit ''a''), get_json = JNull\<rparr>
       [lit ''a'' \<mapsto> [0, 5]]) =
     invalid_request ''Provide JSON body with 'message' field.'' \<and>
   store (chat (\<lambda>c. Inl []) (lit ''gpt-4o-mini'') 3603
       \<lparr>forwarded_for = None, remote_addr = Some (lit ''a''), get_json = JNull\<rparr>
       [lit ''a'' \<mapsto> [0, 5]]) = [lit ''a'' \<mapsto> [5, 3603]]"
proof -
  let ?req = "\<lparr>forwarded_for = None, remote_addr = Some (lit ''a''), get_json = JNull\<rparr>"
  have ip: "ip_from_request ?req = lit ''a''"
    by (simp add: ip_from_request_def lit_def)
  have admit: "fst (check_rate_limit (ip_from_request ?req) 3603 [lit ''a'' \<mapsto> [0, 5]]) = Inr Admit"
    unfolding ip
    by (simp add: check_rate_limit_def window_def RATE_LIMIT_MAX_def RATE_LIMIT_WINDOW_def Let_def)
  have bad: "response (chat (\<lambda>c. Inl []) (lit ''gpt-4o-mini'') 3603 ?req [lit ''a'' \<mapsto> [0, 5]]) =
      invalid_request ''Provide JSON body with 'message' field.''"
    by (simp add: chat_admitted_store [OF admit] chat_admitted_def)
  from admitted_request_consumes_slot [OF admit, of "\<lambda>c. Inl []" "lit ''gpt-4o-mini''"] admit bad
  show ?thesis
    by (simp add: ip window_def RATE_LIMIT_WINDOW_def)
qed

subsection \<open>Body validation\<close>

text \<open>
  A body that is absent, a dictionary without the key \<open>message\<close>, or a dictionary whose
  message is a string of whitespace only, is answered with 400 and no completion call.
\<close>

lemma chat_rejects_invalid_body:
  assumes "fst (check_rate_limit (ip_from_request req) now rlog) = Inr Admit"
    and "get_json req = JNull \<or>
         (\<exists>kvs. get_json req = JDict kvs \<and> lit ''message'' \<notin> fst ` set kvs) \<or>
         (\<exists>kvs s. get_json req = JDict kvs \<and> map_of kvs (lit ''message'') = Some (JStr s) \<and>
            (\<forall>c \<in> set s. isspace c))"
  shows "\<exists>msg. response (chat client MODEL now req rlog) = invalid_request msg \<and>
           calls (chat client MODEL now req rlog) = []"
proof -
  from assms(2) consider
      (absent) "get_json req = JNull"
    | (nofield) kvs where "get_json req = JDict kvs" "lit ''message'' \<notin> fst ` set kvs"
    | (blank) kvs s where "get_json req = JDict kvs"
        "map_of kvs (lit ''message'') = Some (JStr s)" "\<forall>c \<in> set s. isspace c"
    by blast
  then show ?thesis
  proof cases
    case absent
    then show ?thesis by (auto simp: chat_admitted_store [OF assms(1)] chat_admitted_def)
  next
    case nofield
    then show ?thesis by (auto simp: chat_admitted_store [OF assms(1)] chat_admitted_def)
  next
    case blank
    from blank(2) have "kvs \<noteq> []" by auto
    moreover from blank(2) have "lit ''message'' \<in> fst ` set kvs"
      by (metis domI dom_map_of_conv_image_fst)
    moreover from blank(3) have "strip s = []" by (simp add: strip_empty_iff)
    ultimately show ?thesis using blank(1,2)
      by (auto simp: chat_admitted_store [OF assms(1)] chat_admitted_def)
  qed
qed

text \<open>
  C6. A request whose JSON body is the number 5 has no \<open>message\<close> field, yet it is not
  answered with 400 \<open>invalid_request\<close>: the test \<open>"message" not in data\<close> raises
  \<open>TypeError\<close>, which leaves the view. The rate-limit slot is taken all the same, and
  the completion capability is not called.
\<close>

theorem non_object_body_is_unhandled:
  "chat (\<lambda>c. Inl []) (lit ''gpt-4o-mini'') 0
     \<lparr>forwarded_for = None, remote_addr = Some (lit ''203.0.113.7''), get_json = JInt 5\<rparr>
     Map.empty =
   \<lparr>response = Unhandled TypeError, store = [lit ''203.0.113.7'' \<mapsto> [0]],
    calls = [], printed = []\<rparr>"
  by (simp add: chat_def ip_from_request_def check_rate_limit_def window_def RATE_LIMIT_MAX_def
      chat_admitted_def lit_def Let_def)

subsection \<open>The completion call\<close>

text \<open>
  C8. For every admitted request whose body is a dictionary with a string message that
  is not empty after trimming, when the completion call raises an exception with text
  \<open>e\<close>, the response is 500 with \<open>error = "openai_error"\<close> and \<open>message = e\<close>, the
  completion capability has been called exactly once, and one line carrying \<open>e\<close> has
  been printed.
\<close>

theorem provider_failure_is_500:
  assumes "fst (check_rate_limit (ip_from_request req) now rlog) = Inr Admit"
    and "get_json req = JDict kvs"
    and "map_of kvs (lit ''message'') = Some (JStr s)"
    and "strip s \<noteq> []"
    and "client (completion_call MODEL (strip s)) = Inl e"
  shows "response (chat client MODEL now req rlog) =
           Response 500 (JDict [(lit ''error'', JStr (lit ''openai_error'')),
                                (lit ''message'', JStr e)]) \<and>
         calls (chat client MODEL now req rlog) = [completion_call MODEL (strip s)] \<and>
         printed (chat client MODEL now req rlog) = [lit ''OpenAI error: '' @ e]"
  using assms(2,5)
  by (simp add: chat_admitted_store [OF assms(1)] chat_admitted_well_formed [OF assms(3,4)]
      relay_def openai_error_def Let_def)

theorem provider_failure_is_500_witness:
  "fst (check_rate_limit
          (ip_from_request
             \<lparr>forwarded_for = Some (lit '' 203.0.113.7 , 10.0.0.1''),
              remote_addr = Some (lit ''10.0.0.1''),
              get_json = JDict [(lit ''message'', JStr (lit '' hi ''))]\<rparr>)
          0 Map.empty) = Inr Admit \<and>
   map_of [(lit ''message'', JStr (lit '' hi ''))] (lit ''message'') = Some (JStr (lit '' hi '')) \<and>
   strip (lit '' hi '') \<noteq> [] \<and>
   response (chat (\<lambda>c. Inl (lit ''timed out'')) (lit ''gpt-4o-mini'') 0
       \<lparr>forwarded_for = Some (lit '' 203.0.113.7 , 10.0.0.1''),
        remote_addr = Some (lit ''10.0.0.1''),
        get_json = JDict [(lit ''message'', JStr (lit '' hi ''))]\<rparr> Map.empty) =
     Response 500 (JDict [(lit ''error'', JStr (lit ''openai_error'')),
                          (lit ''message'', JStr (lit ''timed out''))]) \<and>
   calls (chat (\<lambda>c. Inl (lit ''timed out'')) (lit ''gpt-4o-mini'') 0
       \<lparr>forwarded_for = Some (lit '' 203.0.113.7 , 10.0.0.1''),
        remote_addr = Some (lit ''10.0.0.1''),
        get_json = JDict [(lit ''message'', JStr (lit '' hi ''))]\<rparr> Map.empty) =
     [completion_call (lit ''gpt-4o-mini'') (lit ''hi'')] \<and>
   printed (chat (\<lambda>c. Inl (lit ''timed out'')) (lit ''gpt-4o-mini'') 0
       \<lparr>forwarded_for = Some (lit '' 203.0.113.7 , 10.0.0.1''),
        remote_addr = Some (lit ''10.0.0.1''),
        get_json = JDict [(lit ''message'', JStr (lit '' hi ''))]\<rparr> Map.empty) =
     [lit ''OpenAI error: timed out'']"
proof -
  let ?req = "\<lparr>forwarded_for = Some (lit '' 203.0.113.7 , 10.0.0.1''),
      remote_addr = Some (lit ''10.0.0.1''),
      get_json = JDict [(lit ''message'', JStr (lit '' hi ''))]\<rparr>"
  have admit: "fst (check_rate_limit (ip_from_request ?req) 0 Map.empty) = Inr Admit"
    by (simp add: check_rate_limit_def window_def RATE_LIMIT_MAX_def Let_def)
  have body: "get_json ?req = JDict [(lit ''message'', JStr (lit '' hi ''))]"
    by simp
  have field: "map_of [(lit ''message'', JStr (lit '' hi ''))] (lit ''message'') =
      Some (JStr (lit '' hi ''))"
    by simp
  have trimmed: "strip (lit '' hi '') = lit ''hi''"
    by (simp add: strip_def isspace_def lit_def)
  have nonempty: "strip (lit '' hi '') \<noteq> []"
    unfolding trimmed by (simp add: lit_def)
  have fails: "(\<lambda>c. Inl (lit ''timed out'')) (completion_call (lit ''gpt-4o-mini'') (strip (lit '' hi ''))) =
      (Inl (lit ''timed out'') :: pystr + completion)"
    by simp
  from provider_failure_is_500 [OF admit body field nonempty fails] admit field nonempty
  show ?thesis
    unfolding trimmed by (simp add: lit_def)
qed

text \<open>
  When the first choice exists and \<open>message.content\<close> cannot be read from it, the reply
  is the choice's \<open>text\<close> if that is present and not empty, and the fixed apology
  otherwise.
\<close>

lemma unreadable_first_choice_recovered:
  assumes "choices resp = c # rest" and "message_content resp = Inl err"
  shows "extract_reply resp =
           Inr (case text_attr c of
                  None \<Rightarrow> JStr fallback_reply
                | Some v \<Rightarrow> if truthy v then v else JStr fallback_reply)"
  using assms by (simp add: extract_reply_def Let_def split: option.split)

text \<open>
  C7. A completion that returns successfully with an empty list of choices is not
  answered with the fixed apology in a 200 response: the handler of the inner \<open>try\<close>
  indexes \<open>resp.choices[0]\<close> again, the \<open>IndexError\<close> reaches the outer handler, and
  the response is 500 \<open>openai_error\<close>.
\<close>

theorem empty_choices_is_500:
  "response (chat (\<lambda>c. Inr \<lparr>choices = []\<rparr>) (lit ''gpt-4o-mini'') 0
     \<lparr>forwarded_for = None, remote_addr = Some (lit ''203.0.113.7''),
      get_json = JDict [(lit ''message'', JStr (lit ''Explain photosynthesis in 5 lines''))]\<rparr>
     Map.empty) =
   Response 500 (JDict [(lit ''error'', JStr (lit ''openai_error'')),
                        (lit ''message'', JStr (lit ''list index out of range''))])"
  by (simp add: chat_def ip_from_request_def check_rate_limit_def window_def RATE_LIMIT_MAX_def
      chat_admitted_def relay_def openai_error_def extract_reply_def message_content_def
      strip_def isspace_def lit_def Let_def)

end
